theory Spec2Isabelle
  imports Main "HOL-Library.Word" "HOL-Library.Sublist"
begin

unbundle bit_operations_syntax

section \<open>The DCPU-16 assembler of asm_pyparsing.py\<close>

text \<open>
  The development embeds the code generator of \<^verbatim>\<open>asm_pyparsing.py\<close>: the operand
  classifier \<^verbatim>\<open>process_operand\<close>, the data expander \<^verbatim>\<open>make_words\<close> /
  \<^verbatim>\<open>parse_data\<close> and the three loops of \<^verbatim>\<open>codegen\<close> (generation, label
  substitution, serialisation). The pyparsing grammar is a library object; the
  embedding starts from the parse results it hands to \<^verbatim>\<open>codegen\<close>.
\<close>

subsection \<open>Parse results\<close>

text \<open>
  A literal is \<^verbatim>\<open>numeric_literal | identifier\<close>. The numeric parse actions are
  \<^verbatim>\<open>int(t[0], 16)\<close> and \<^verbatim>\<open>int(t[0])\<close> on a string of digits, so a numeric literal is
  a natural number; an identifier stays a Python string.
\<close>

datatype lit = Numeric nat | Identifier string

text \<open>
  \<^verbatim>\<open>basic_operand = Group(register("register") | stack_op("stack_op") | literal("literal"))\<close>;
  register and stack-operation names are upper-cased by the grammar. An indirection wraps
  \<^verbatim>\<open>indirect_expr("expr") | basic_operand("basic")\<close>, and an operand is
  \<^verbatim>\<open>basic_operand("basic") | indirection("indirect")\<close>.
\<close>

datatype basic_operand = Register string | Stack_op string | Literal lit

datatype indirection = Indirect_basic basic_operand | Indirect_expr lit string

datatype operand = Basic basic_operand | Indirect indirection

text \<open>
  A statement is the parse result \<^verbatim>\<open>s\<close> with its named fields. A field that the
  grammar did not fill reads as the empty string in pyparsing: \<open>None\<close> stands for that
  in \<open>first\<close> and \<open>second\<close>, the empty list in \<open>data\<close>.
\<close>

record statement =
  instruction :: string
  first :: "operand option"
  second :: "operand option"
  data :: "int list"

text \<open>
  A line: \<^verbatim>\<open>line.label\<close> is the label name, the empty string when the line has none;
  \<^verbatim>\<open>line.statement\<close> is \<^verbatim>\<open>None\<close> when the line has no statement.
\<close>

record line =
  label :: string
  statement :: "statement option"

text \<open>A program word is a Python int or a Python string (a label still to be resolved).\<close>

datatype program_word = Number int | Symbol string

datatype error =
    KeyError string
  | AssertionError
  | AttributeError
  | UnboundLocalError string
  | StructError

subsection \<open>Tables\<close>

definition IDENTIFIERS :: "string \<rightharpoonup> int" where
  "IDENTIFIERS = map_of
     [(''A'', 0x0), (''B'', 0x1), (''C'', 0x2), (''X'', 0x3), (''Y'', 0x4), (''Z'', 0x5),
      (''I'', 0x6), (''J'', 0x7), (''POP'', 0x18), (''PEEK'', 0x19), (''PUSH'', 0x1A),
      (''SP'', 0x1B), (''PC'', 0x1C)]"

definition OPCODES :: "string \<rightharpoonup> int" where
  "OPCODES = map_of
     [(''SET'', 0x1), (''ADD'', 0x2), (''SUB'', 0x3), (''MUL'', 0x4), (''DIV'', 0x5),
      (''MOD'', 0x6), (''SHL'', 0x7), (''SHR'', 0x8), (''AND'', 0x9), (''BOR'', 0xA),
      (''XOR'', 0xB), (''IFE'', 0xC), (''IFN'', 0xD), (''IFG'', 0xE), (''IFB'', 0xF)]"

subsection \<open>The operand classifier\<close>

text \<open>Python's \<^verbatim>\<open>sub in s\<close> on strings: \<open>sub\<close> occurs in \<open>s\<close> as a contiguous piece.\<close>

fun str_in :: "string \<Rightarrow> string \<Rightarrow> bool" where
  "str_in sub [] = (sub = [])"
| "str_in sub (c # cs) = (prefix sub (c # cs) \<or> str_in sub cs)"

text \<open>The extra word a literal contributes: the int, or the identifier's string.\<close>

fun lit_word :: "lit \<Rightarrow> program_word" where
  "lit_word (Numeric n) = Number (int n)"
| "lit_word (Identifier s) = Symbol s"

text \<open>
  \<^verbatim>\<open>process_operand(o)\<close> returns the pair (field code, extra word or \<^verbatim>\<open>None\<close>).
  \<^item> \<^verbatim>\<open>IDENTIFIERS[...]\<close> raises \<^verbatim>\<open>KeyError\<close> on a name the table lacks (the register
    \<^verbatim>\<open>O\<close> of the grammar).
  \<^item> The two \<^verbatim>\<open>assert ... in "ABCXYZIJ"\<close> are substring tests.
  \<^item> \<^verbatim>\<open>ib.literal is not None\<close> holds for every parse result, since an absent field reads
    as \<^verbatim>\<open>""\<close>: an indirect stack operation returns \<^verbatim>\<open>(0x1E, "")\<close>.
  \<^item> An absent operand is the string \<^verbatim>\<open>""\<close>, and \<^verbatim>\<open>"".basic\<close> raises
    \<^verbatim>\<open>AttributeError\<close>.
\<close>

fun process_operand :: "operand option \<Rightarrow> error + (int \<times> program_word option)" where
  "process_operand None = Inl AttributeError"
| "process_operand (Some (Basic (Register r))) =
     (case IDENTIFIERS r of None \<Rightarrow> Inl (KeyError r) | Some c \<Rightarrow> Inr (c, None))"
| "process_operand (Some (Basic (Stack_op s))) =
     (case IDENTIFIERS s of None \<Rightarrow> Inl (KeyError s) | Some c \<Rightarrow> Inr (c, None))"
| "process_operand (Some (Basic (Literal (Numeric l)))) =
     (if int l < 0x20 then Inr (0x20 OR int l, None) else Inr (0x1F, Some (Number (int l))))"
| "process_operand (Some (Basic (Literal (Identifier l)))) =
     (if l = [] then Inl AssertionError else Inr (0x1F, Some (Symbol l)))"
| "process_operand (Some (Indirect (Indirect_basic (Register r)))) =
     (if \<not> str_in r ''ABCXYZIJ'' then Inl AssertionError
      else case IDENTIFIERS r of None \<Rightarrow> Inl (KeyError r) | Some c \<Rightarrow> Inr (0x8 + c, None))"
| "process_operand (Some (Indirect (Indirect_basic (Stack_op s)))) =
     Inr (0x1E, Some (Symbol []))"
| "process_operand (Some (Indirect (Indirect_basic (Literal l)))) =
     Inr (0x1E, Some (lit_word l))"
| "process_operand (Some (Indirect (Indirect_expr l r))) =
     (if \<not> str_in r ''ABCXYZIJ'' then Inl AssertionError
      else case IDENTIFIERS r of None \<Rightarrow> Inl (KeyError r)
           | Some c \<Rightarrow> Inr (0x10 OR c, Some (lit_word l)))"

subsection \<open>The data directive\<close>

text \<open>
  \<^verbatim>\<open>make_words(data)\<close> zips \<^verbatim>\<open>data[::2]\<close> with \<^verbatim>\<open>data[1::2]\<close>, filling the shorter
  with 0, and forms \<^verbatim>\<open>a << 8 | b\<close> of each pair.
\<close>

fun make_words :: "int list \<Rightarrow> int list" where
  "make_words [] = []"
| "make_words [a] = [push_bit 8 a OR 0]"
| "make_words (a # b # rest) = (push_bit 8 a OR b) # make_words rest"

text \<open>
  A datum is \<^verbatim>\<open>quoted_string | numeric_literal\<close>. The string, quotes removed, is given by
  the code points of its characters; \<^verbatim>\<open>wordize_string\<close> packs \<^verbatim>\<open>[ord(c) for c in tokens.string]\<close>.
\<close>

datatype datum = Quoted_string "nat list" | Numeric_literal nat

definition wordize_string :: "nat list \<Rightarrow> int list" where
  "wordize_string cs = make_words (map int cs)"

text \<open>\<^verbatim>\<open>datum.parseString(token).asList()\<close>: the words of one datum.\<close>

fun datum_words :: "datum \<Rightarrow> int list" where
  "datum_words (Quoted_string cs) = wordize_string cs"
| "datum_words (Numeric_literal n) = [int n]"

text \<open>\<^verbatim>\<open>parse_data\<close>: each token's words extend the result, in order.\<close>

fun parse_data :: "datum list \<Rightarrow> int list" where
  "parse_data [] = []"
| "parse_data (t # ts) = datum_words t @ parse_data ts"

text \<open>The parse result of \<^verbatim>\<open>DAT\<close> followed by a list of data.\<close>

definition dat :: "datum list \<Rightarrow> statement" where
  "dat ts = \<lparr>instruction = ''DAT'', first = None, second = None, data = parse_data ts\<rparr>"

text \<open>
  The parse result of \<^verbatim>\<open>instruction("instruction") + Group(operand)("first") +
  Optional("," + Group(operand)("second"))\<close>: a mnemonic, upper-cased, with one operand or two.
\<close>

definition instr :: "string \<Rightarrow> operand \<Rightarrow> operand option \<Rightarrow> statement" where
  "instr m p q = \<lparr>instruction = m, first = Some p, second = q, data = []\<rparr>"

subsection \<open>Code generation\<close>

text \<open>
  The state of the generation loop: the dictionary \<^verbatim>\<open>labels\<close>, the list
  \<^verbatim>\<open>program\<close>, and the local variable \<^verbatim>\<open>x\<close>, which the loop may read in an iteration
  that did not assign it: \<open>None\<close> when it is still unbound, \<open>Some v\<close> when it holds
  \<open>v\<close> (itself \<^verbatim>\<open>None\<close> or a word). The other locals are assigned before every read.
\<close>

record cg =
  labels :: "string \<rightharpoonup> int"
  program :: "program_word list"
  var_x :: "program_word option option"

definition initial :: cg where
  "initial = \<lparr>labels = Map.empty, program = [], var_x = None\<rparr>"

text \<open>\<^verbatim>\<open>if line.label: labels[line.label] = len(program)\<close>\<close>

definition define_label :: "string \<Rightarrow> cg \<Rightarrow> cg" where
  "define_label l st =
     (if l \<noteq> [] then st\<lparr>labels := (labels st)(l \<mapsto> int (length (program st)))\<rparr> else st)"

text \<open>The word \<^verbatim>\<open>(b << 10) + (a << 4) + o\<close>.\<close>

definition instruction_word :: "int \<Rightarrow> int \<Rightarrow> int \<Rightarrow> int" where
  "instruction_word opc a b = push_bit 10 b + push_bit 4 a + opc"

fun extra :: "program_word option \<Rightarrow> program_word list" where
  "extra None = []"
| "extra (Some w) = [w]"

text \<open>
  The three appends that end an iteration. Reading \<^verbatim>\<open>x\<close> while it is unbound raises
  \<^verbatim>\<open>UnboundLocalError\<close>.
\<close>

definition emit :: "int \<Rightarrow> int \<Rightarrow> int \<Rightarrow> program_word option \<Rightarrow> cg \<Rightarrow> error + cg" where
  "emit opc a b y st =
     (case var_x st of
        None \<Rightarrow> Inl (UnboundLocalError ''x'')
      | Some x \<Rightarrow>
          Inr (st\<lparr>program := program st @ [Number (instruction_word opc a b)] @ extra x @ extra y\<rparr>))"

text \<open>The statement part of one iteration.\<close>

definition codegen_statement :: "statement \<Rightarrow> cg \<Rightarrow> error + cg" where
  "codegen_statement s st =
     (if instruction s = ''DAT'' then Inr (st\<lparr>program := program st @ map Number (data s)\<rparr>)
      else if instruction s = ''JSR'' then
        (case process_operand (first s) of
           Inl e \<Rightarrow> Inl e
         | Inr (b, y) \<Rightarrow> emit 0x00 0x01 b y st)
      else
        (case OPCODES (instruction s) of
           None \<Rightarrow> Inl (KeyError (instruction s))
         | Some opc \<Rightarrow>
            (case process_operand (first s) of
               Inl e \<Rightarrow> Inl e
             | Inr (a, x) \<Rightarrow>
                (case process_operand (second s) of
                   Inl e \<Rightarrow> Inl e
                 | Inr (b, y) \<Rightarrow> emit opc a b y (st\<lparr>var_x := Some x\<rparr>)))))"

text \<open>One iteration of \<^verbatim>\<open>for line in parsed\<close>.\<close>

definition codegen_line :: "line \<Rightarrow> cg \<Rightarrow> error + cg" where
  "codegen_line ln st =
     (case statement ln of
        None \<Rightarrow> Inr (define_label (label ln) st)
      | Some s \<Rightarrow> codegen_statement s (define_label (label ln) st))"

fun generate :: "line list \<Rightarrow> cg \<Rightarrow> error + cg" where
  "generate [] st = Inr st"
| "generate (ln # lns) st =
     (case codegen_line ln st of Inl e \<Rightarrow> Inl e | Inr st' \<Rightarrow> generate lns st')"

text \<open>
  \<^verbatim>\<open>for i, c in enumerate(program): if isinstance(c, basestring): program[i] = labels[c]\<close>;
  the first string that is not a key raises \<^verbatim>\<open>KeyError\<close>.
\<close>

fun substitute :: "(string \<rightharpoonup> int) \<Rightarrow> program_word list \<Rightarrow> error + int list" where
  "substitute lab [] = Inr []"
| "substitute lab (Number n # cs) =
     (case substitute lab cs of Inl e \<Rightarrow> Inl e | Inr ws \<Rightarrow> Inr (n # ws))"
| "substitute lab (Symbol c # cs) =
     (case lab c of
        None \<Rightarrow> Inl (KeyError c)
      | Some v \<Rightarrow> (case substitute lab cs of Inl e \<Rightarrow> Inl e | Inr ws \<Rightarrow> Inr (v # ws)))"

text \<open>
  \<^verbatim>\<open>struct.pack(">H", word)\<close>: the two bytes of an unsigned 16-bit value, the most
  significant first; \<^verbatim>\<open>struct.error\<close> outside \<open>0..65535\<close>.
\<close>

type_synonym byte = "8 word"

definition pack_H :: "int \<Rightarrow> error + byte list" where
  "pack_H w =
     (if 0 \<le> w \<and> w \<le> 0xFFFF then Inr [word_of_int (w div 256), word_of_int (w mod 256)]
      else Inl StructError)"

text \<open>\<^verbatim>\<open>result = bytes(); for word in program: result += struct.pack(">H", word)\<close>\<close>

fun serialize :: "byte list \<Rightarrow> int list \<Rightarrow> error + byte list" where
  "serialize result [] = Inr result"
| "serialize result (w # ws) =
     (case pack_H w of Inl e \<Rightarrow> Inl e | Inr bs \<Rightarrow> serialize (result @ bs) ws)"

text \<open>\<^verbatim>\<open>codegen\<close> on the parsed lines: generate, substitute labels, turn words into bytes.\<close>

definition codegen :: "line list \<Rightarrow> error + byte list" where
  "codegen parsed =
     (case generate parsed initial of
        Inl e \<Rightarrow> Inl e
      | Inr st \<Rightarrow>
         (case substitute (labels st) (program st) of
            Inl e \<Rightarrow> Inl e
          | Inr ws \<Rightarrow> serialize [] ws))"

section \<open>Properties\<close>

subsection \<open>Bit fields of the instruction word\<close>

lemma and_63: "(x::int) AND 0x3F = x mod 64"
  using take_bit_eq_mask[of 6 x] by (simp add: mask_eq_exp_minus_1 take_bit_eq_mod)

lemma and_15: "(x::int) AND 0xF = x mod 16"
  using take_bit_eq_mask[of 4 x] by (simp add: mask_eq_exp_minus_1 take_bit_eq_mod)

lemma instruction_word_sum: "instruction_word opc a b = b * 1024 + a * 16 + opc"
  by (simp add: instruction_word_def push_bit_eq_mult)

text \<open>
  Claim C8. For an opcode \<open>0 \<le> opc < 16\<close> and field codes \<open>a\<close>, \<open>b\<close> in
  \<open>[0, 0x3F]\<close>, the word \<^verbatim>\<open>W = (b << 10) + (a << 4) + o\<close> built by \<^verbatim>\<open>codegen\<close> decodes
  back: \<^verbatim>\<open>(W >> 10) & 0x3F\<close> is \<open>b\<close>, \<^verbatim>\<open>(W >> 4) & 0x3F\<close> is \<open>a\<close> and \<^verbatim>\<open>W & 0xF\<close> is
  the opcode.
\<close>

theorem instruction_word_decode:
  assumes "0 \<le> opc" "opc < 16" "0 \<le> a" "a \<le> 0x3F" "0 \<le> b" "b \<le> 0x3F"
  shows "drop_bit 10 (instruction_word opc a b) AND 0x3F = b
       \<and> drop_bit 4 (instruction_word opc a b) AND 0x3F = a
       \<and> instruction_word opc a b AND 0xF = opc"
proof -
  have hi: "(b * 1024 + a * 16 + opc) div 1024 = b" using assms by linarith
  have mid: "(b * 1024 + a * 16 + opc) div 16 = b * 64 + a" using assms by linarith
  have e1: "b * 1024 + a * 16 + opc = opc + 16 * (b * 64 + a)" by simp
  have "(opc + 16 * (b * 64 + a)) mod 16 = opc mod 16" by (rule mod_mult_self2)
  also have "\<dots> = opc" using assms by simp
  finally have lo: "(b * 1024 + a * 16 + opc) mod 16 = opc" by (simp only: e1)
  have e2: "b * 64 + a = a + 64 * b" by simp
  have "(a + 64 * b) mod 64 = a mod 64" by (rule mod_mult_self2)
  also have "\<dots> = a" using assms by simp
  finally have am: "(b * 64 + a) mod 64 = a" by (simp only: e2)
  have bm: "b mod 64 = b" using assms by simp
  have d10: "drop_bit 10 W = W div 1024" and d4: "drop_bit 4 W = W div 16" for W :: int
    by (simp_all add: drop_bit_eq_div)
  have "drop_bit 10 (instruction_word opc a b) AND 0x3F = b"
    unfolding instruction_word_sum d10 and_63 hi by (rule bm)
  moreover have "drop_bit 4 (instruction_word opc a b) AND 0x3F = a"
    unfolding instruction_word_sum d4 and_63 mid by (rule am)
  moreover have "instruction_word opc a b AND 0xF = opc"
    unfolding instruction_word_sum and_15 by (rule lo)
  ultimately show ?thesis by blast
qed

theorem instruction_word_decode_witness:
  "instruction_word 0x1 0x00 0x1F = 0x7C01
   \<and> drop_bit 10 (0x7C01 :: int) AND 0x3F = 0x1F
   \<and> drop_bit 4 (0x7C01 :: int) AND 0x3F = 0x00
   \<and> (0x7C01 :: int) AND 0xF = 0x1"
  using instruction_word_decode [of "0x1" "0x00" "0x1F"]
  by (simp add: instruction_word_sum)

subsection \<open>Literal operands\<close>

text \<open>
  Claim C3. A numeric literal \<open>L\<close> below \<open>0x20\<close> is classified as field code
  \<^verbatim>\<open>0x20 | L\<close> with no extra word, so \<open>0x1F\<close> gives \<open>0x3F\<close>; a numeric literal from
  \<open>0x20\<close> on, and an identifier (a label name, never empty in the grammar), is
  classified as field code \<open>0x1F\<close> with the literal itself as the extra word, so
  \<open>0x20\<close> gives \<open>0x1F\<close> and the extra word \<open>0x20\<close>.
\<close>

theorem literal_operand_classification:
  "(int L < 0x20 \<longrightarrow>
      process_operand (Some (Basic (Literal (Numeric L)))) = Inr (0x20 OR int L, None))
   \<and> (0x20 \<le> int M \<longrightarrow>
      process_operand (Some (Basic (Literal (Numeric M)))) = Inr (0x1F, Some (Number (int M))))
   \<and> (s \<noteq> [] \<longrightarrow>
      process_operand (Some (Basic (Literal (Identifier s)))) = Inr (0x1F, Some (Symbol s)))
   \<and> process_operand (Some (Basic (Literal (Numeric 0x1F)))) = Inr (0x3F, None)
   \<and> process_operand (Some (Basic (Literal (Numeric 0x20)))) = Inr (0x1F, Some (Number 0x20))"
  by simp

theorem literal_operand_classification_witness:
  "process_operand (Some (Basic (Literal (Numeric 5)))) = Inr (0x25, None)
   \<and> process_operand (Some (Basic (Literal (Numeric 48)))) = Inr (0x1F, Some (Number 48))
   \<and> process_operand (Some (Basic (Literal (Identifier ''loop'')))) =
       Inr (0x1F, Some (Symbol ''loop''))"
  using literal_operand_classification [of 5 48 "''loop''"] by simp

subsection \<open>Instruction statements\<close>

lemma push_bit_add_eq_or:
  fixes x y :: int
  assumes "0 \<le> y" "y < 2 ^ n"
  shows "push_bit n x + y = push_bit n x OR y"
proof -
  from assms have y: "take_bit n y = y" by (simp add: take_bit_int_eq_self)
  have "push_bit n x AND take_bit n y = 0"
    by (rule bit_eqI) (auto simp add: bit_simps)
  then have "push_bit n x + take_bit n y = push_bit n x OR take_bit n y"
    by (rule disjunctive_add_eq_or)
  then show ?thesis by (simp only: y)
qed

lemma instruction_word_or:
  assumes "0 \<le> opc" "opc < 16" "0 \<le> a" "a \<le> 0x3F"
  shows "instruction_word opc a b = (push_bit 10 b OR push_bit 4 a) OR opc"
proof -
  have 1: "push_bit 4 a + opc = push_bit 4 a OR opc"
    using assms by (intro push_bit_add_eq_or) simp_all
  have "0 \<le> push_bit 4 a + opc" "push_bit 4 a + opc < 2 ^ 10"
    using assms by (simp_all add: push_bit_eq_mult)
  then have "push_bit 10 b + (push_bit 4 a + opc) = push_bit 10 b OR (push_bit 4 a + opc)"
    by (rule push_bit_add_eq_or)
  then show ?thesis
    by (simp add: instruction_word_def 1 or.assoc add.assoc)
qed

lemma OPCODES_range:
  "OPCODES m = Some opc \<Longrightarrow> 1 \<le> opc \<and> opc \<le> 0xF \<and> m \<noteq> ''DAT'' \<and> m \<noteq> ''JSR''"
  by (auto simp add: OPCODES_def split: if_splits)

lemma IDENTIFIERS_range: "IDENTIFIERS r = Some c \<Longrightarrow> 0 \<le> c \<and> c \<le> 0x1C"
  by (auto simp add: IDENTIFIERS_def split: if_splits)

lemma IDENTIFIERS_named:
  "str_in r ''ABCXYZIJ'' \<Longrightarrow> IDENTIFIERS r = Some c \<Longrightarrow> c \<in> {0, 1, 2, 3, 4, 5, 6, 7}"
  by (auto simp add: IDENTIFIERS_def split: if_splits)

lemma or_0x20_range: "int l < 0x20 \<Longrightarrow> 0 \<le> 0x20 OR int l \<and> 0x20 OR int l \<le> 0x3F"
proof -
  assume "int l < 0x20"
  then have "(0x20::int) OR int l < 2 ^ 6"
    by (intro OR_upper) simp_all
  then show ?thesis by simp
qed

lemma field_code_range:
  "process_operand p = Inr (a, x) \<Longrightarrow> 0 \<le> a \<and> a \<le> 0x3F"
proof (induction p rule: process_operand.induct)
  case (4 l)
  then show ?case using or_0x20_range [of l] by (auto split: if_splits)
next
  case (6 r)
  then obtain c where c: "str_in r ''ABCXYZIJ''" "IDENTIFIERS r = Some c" "a = 0x8 + c"
    by (auto simp del: str_in.simps split: if_splits option.splits)
  from IDENTIFIERS_named [OF c(1,2)] c(3) show ?case by auto
next
  case (9 l r)
  then obtain c where c: "str_in r ''ABCXYZIJ''" "IDENTIFIERS r = Some c" "a = 0x10 OR c"
    by (auto simp del: str_in.simps split: if_splits option.splits)
  from IDENTIFIERS_named [OF c(1,2)] c(3) show ?case by auto
qed (auto split: if_splits option.splits dest: IDENTIFIERS_range)

lemmas line_defs = codegen_line_def codegen_statement_def define_label_def emit_def

lemmas table_defs = IDENTIFIERS_def OPCODES_def

text \<open>
  Claim C2. A statement whose mnemonic has the opcode \<open>opc\<close> in \<^verbatim>\<open>OPCODES\<close>, whose first
  written operand is classified as \<open>(a, x)\<close> and whose second as \<open>(b, y)\<close>, appends
  the single word \<^verbatim>\<open>(b << 10) | (a << 4) | o\<close>, then \<open>x\<close> if it is present, then \<open>y\<close>
  if it is present, whatever the state of the loop and the label of the line. The source
  \<^verbatim>\<open>SET A, 0x30\<close> generates exactly the words \<open>0x7C01\<close> and \<open>0x0030\<close>.
\<close>

theorem two_operand_instruction_words:
  assumes "OPCODES (instruction s) = Some opc"
    and "process_operand (first s) = Inr (a, x)"
    and "process_operand (second s) = Inr (b, y)"
  shows "(\<exists>st'. codegen_line \<lparr>label = l, statement = Some s\<rparr> st = Inr st'
            \<and> program st' = program st
                 @ [Number ((push_bit 10 b OR push_bit 4 a) OR opc)] @ extra x @ extra y)
       \<and> (\<exists>st'. generate [\<lparr>label = [], statement = Some (instr ''SET''
                   (Basic (Register ''A'')) (Some (Basic (Literal (Numeric 0x30)))))\<rparr>] initial
                 = Inr st' \<and> program st' = [Number 0x7C01, Number 0x0030])"
proof -
  from OPCODES_range [OF assms(1)]
  have opc: "0 \<le> opc" "opc < 16" "instruction s \<noteq> ''DAT''" "instruction s \<noteq> ''JSR''"
    by auto
  from field_code_range [OF assms(2)] have a: "0 \<le> a" "a \<le> 0x3F" by auto
  have w: "instruction_word opc a b = (push_bit 10 b OR push_bit 4 a) OR opc"
    using opc a by (intro instruction_word_or)
  have 1: "\<exists>st'. codegen_line \<lparr>label = l, statement = Some s\<rparr> st = Inr st'
            \<and> program st' = program st
                 @ [Number ((push_bit 10 b OR push_bit 4 a) OR opc)] @ extra x @ extra y"
    using assms opc(3,4) by (simp add: line_defs w)
  have 2: "\<exists>st'. generate [\<lparr>label = [], statement = Some (instr ''SET''
                   (Basic (Register ''A'')) (Some (Basic (Literal (Numeric 0x30)))))\<rparr>] initial
                 = Inr st' \<and> program st' = [Number 0x7C01, Number 0x0030]"
    by (simp add: line_defs table_defs instr_def initial_def instruction_word_sum)
  from 1 2 show ?thesis by blast
qed

theorem two_operand_instruction_words_witness:
  "OPCODES (instruction (instr ''ADD'' (Indirect (Indirect_basic (Literal (Identifier ''data''))))
       (Some (Basic (Literal (Numeric 0x30)))))) = Some 0x2
   \<and> process_operand (first (instr ''ADD'' (Indirect (Indirect_basic (Literal (Identifier ''data''))))
       (Some (Basic (Literal (Numeric 0x30)))))) = Inr (0x1E, Some (Symbol ''data''))
   \<and> process_operand (second (instr ''ADD'' (Indirect (Indirect_basic (Literal (Identifier ''data''))))
       (Some (Basic (Literal (Numeric 0x30)))))) = Inr (0x1F, Some (Number 0x30))
   \<and> (\<exists>st'. codegen_line \<lparr>label = ''l'', statement = Some (instr ''ADD''
           (Indirect (Indirect_basic (Literal (Identifier ''data''))))
           (Some (Basic (Literal (Numeric 0x30)))))\<rparr> initial = Inr st'
         \<and> program st' = [Number 0x7DE2, Symbol ''data'', Number 0x30])"
proof -
  let ?s = "instr ''ADD'' (Indirect (Indirect_basic (Literal (Identifier ''data''))))
       (Some (Basic (Literal (Numeric 0x30))))"
  have h1: "OPCODES (instruction ?s) = Some 0x2" by (simp add: instr_def OPCODES_def)
  have h2: "process_operand (first ?s) = Inr (0x1E, Some (Symbol ''data''))"
    by (simp add: instr_def)
  have h3: "process_operand (second ?s) = Inr (0x1F, Some (Number 0x30))"
    by (simp add: instr_def)
  from two_operand_instruction_words [OF h1 h2 h3, of "''l''" initial] h1 h2 h3 show ?thesis
    by (simp add: initial_def)
qed

text \<open>
  Claim C1 fails on the code. The \<^verbatim>\<open>JSR\<close> branch of \<^verbatim>\<open>codegen\<close> assigns \<^verbatim>\<open>o\<close>,
  \<^verbatim>\<open>a\<close>, \<^verbatim>\<open>b\<close> and \<^verbatim>\<open>y\<close> but not \<^verbatim>\<open>x\<close>, which the appends after the branch read.
  A \<^verbatim>\<open>JSR 0x30\<close> that is the first instruction of the source stops with
  \<^verbatim>\<open>UnboundLocalError\<close>; after \<^verbatim>\<open>SET [0x1000], A\<close> the same \<^verbatim>\<open>JSR 0x30\<close> appends
  three words, the instruction word \<open>0x7C10\<close>, the extra word \<open>0x1000\<close> left in \<^verbatim>\<open>x\<close> by
  the \<^verbatim>\<open>SET\<close>, and its own extra word \<open>0x0030\<close>.
\<close>

theorem jsr_reads_stale_x:
  "codegen [\<lparr>label = [], statement = Some (instr ''JSR'' (Basic (Literal (Numeric 0x30))) None)\<rparr>]
     = Inl (UnboundLocalError ''x'')
   \<and> (\<exists>st st'. generate [\<lparr>label = [], statement = Some (instr ''SET''
                   (Indirect (Indirect_basic (Literal (Numeric 0x1000))))
                   (Some (Basic (Register ''A''))))\<rparr>] initial = Inr st
         \<and> codegen_line \<lparr>label = [], statement = Some (instr ''JSR''
                   (Basic (Literal (Numeric 0x30))) None)\<rparr> st = Inr st'
         \<and> program st' = program st @ [Number 0x7C10, Number 0x1000, Number 0x0030])"
  by (simp add: codegen_def line_defs table_defs instr_def initial_def instruction_word_sum)

subsection \<open>Serialisation\<close>

lemma serialize_acc:
  "\<forall>w \<in> set ws. 0 \<le> w \<and> w \<le> 0xFFFF \<Longrightarrow>
   serialize acc ws =
     Inr (acc @ concat (map (\<lambda>w. [word_of_int (w div 256), word_of_int (w mod 256)]) ws))"
  by (induction ws arbitrary: acc) (simp_all add: pack_H_def)

lemma concat_pairs_nth:
  "i < length ws \<Longrightarrow>
   concat (map (\<lambda>w. [f w, g w]) ws) ! (2 * i) = f (ws ! i) \<and>
   concat (map (\<lambda>w. [f w, g w]) ws) ! (2 * i + 1) = g (ws ! i)"
proof (induction ws arbitrary: i)
  case Nil
  then show ?case by simp
next
  case (Cons w ws)
  show ?case
  proof (cases i)
    case 0
    then show ?thesis by simp
  next
    case (Suc j)
    with Cons.prems have "j < length ws" by simp
    from Cons.IH [OF this] Suc show ?thesis by simp
  qed
qed

lemma byte_hi: "0 \<le> w \<Longrightarrow> w \<le> 0xFFFF \<Longrightarrow> uint (word_of_int (w div 256) :: byte) = w div 256"
proof -
  assume a: "0 \<le> w" "w \<le> 0xFFFF"
  then have "0 \<le> w div 256" "w div 256 < 256" by linarith+
  then show ?thesis by (simp add: uint_word_of_int take_bit_eq_mod)
qed

lemma byte_lo: "uint (word_of_int (w mod 256) :: byte) = w mod 256"
  by (simp add: uint_word_of_int take_bit_eq_mod)

text \<open>
  Claim C9. When every word of a resolved program is in \<open>0..0xFFFF\<close>, the serialiser
  succeeds, and its output is the concatenation, in program order, of the two bytes of
  each word, most significant byte first, with nothing before, between or after them:
  it has twice as many bytes as the program has words, and bytes \<open>2i\<close> and \<open>2i+1\<close> read
  big-endian give word \<open>i\<close>. These bytes are what \<^verbatim>\<open>codegen\<close> returns for a source whose
  resolved program is that sequence.
\<close>

theorem serialize_big_endian:
  assumes "\<forall>w \<in> set ws. 0 \<le> w \<and> w \<le> 0xFFFF"
  shows "(\<exists>bs. serialize [] ws = Inr bs
          \<and> bs = concat (map (\<lambda>w. [word_of_int (w div 256), word_of_int (w mod 256)]) ws)
          \<and> length bs = 2 * length ws
          \<and> (\<forall>i < length ws. uint (bs ! (2 * i)) * 256 + uint (bs ! (2 * i + 1)) = ws ! i)
          \<and> (\<forall>parsed st. generate parsed initial = Inr st
                \<and> substitute (labels st) (program st) = Inr ws \<longrightarrow> codegen parsed = Inr bs))"
proof -
  let ?bs = "concat (map (\<lambda>w. [word_of_int (w div 256) :: byte, word_of_int (w mod 256)]) ws)"
  have s: "serialize [] ws = Inr ?bs" using serialize_acc [OF assms, of "[]"] by simp
  have l: "length ?bs = 2 * length ws" by (induction ws) simp_all
  have d: "uint (?bs ! (2 * i)) * 256 + uint (?bs ! (2 * i + 1)) = ws ! i" if "i < length ws" for i
  proof -
    from that assms have r: "0 \<le> ws ! i" "ws ! i \<le> 0xFFFF" by auto
    from concat_pairs_nth [OF that, of "\<lambda>w. word_of_int (w div 256) :: byte" "\<lambda>w. word_of_int (w mod 256)"]
    show ?thesis by (simp add: byte_hi [OF r] byte_lo)
  qed
  have c: "codegen parsed = Inr ?bs"
    if "generate parsed initial = Inr st \<and> substitute (labels st) (program st) = Inr ws" for parsed st
    using that s by (simp add: codegen_def)
  show ?thesis using s l d c by blast
qed

theorem serialize_big_endian_witness:
  "serialize [] [0x7C01, 0x0030] = Inr [0x7C, 0x01, 0x00, 0x30]
   \<and> codegen [\<lparr>label = [], statement = Some (instr ''SET''
          (Basic (Register ''A'')) (Some (Basic (Literal (Numeric 0x30)))))\<rparr>]
       = Inr [0x7C, 0x01, 0x00, 0x30]"
proof -
  let ?parsed = "[\<lparr>label = [], statement = Some (instr ''SET''
          (Basic (Register ''A'')) (Some (Basic (Literal (Numeric 0x30)))))\<rparr>]"
  let ?st = "\<lparr>labels = Map.empty, program = [Number 0x7C01, Number 0x0030], var_x = Some None\<rparr>"
  have h: "\<forall>w \<in> set [0x7C01, 0x0030 :: int]. 0 \<le> w \<and> w \<le> 0xFFFF" by simp
  have g: "generate ?parsed initial = Inr ?st"
    by (simp add: line_defs table_defs instr_def initial_def instruction_word_sum)
  have u: "substitute (labels ?st) (program ?st) = Inr [0x7C01, 0x0030]" by simp
  from serialize_big_endian [OF h] obtain bs where bs: "serialize [] [0x7C01, 0x0030] = Inr bs"
    "bs = concat (map (\<lambda>w. [word_of_int (w div 256), word_of_int (w mod 256)]) [0x7C01, 0x0030 :: int])"
    "\<forall>parsed st. generate parsed initial = Inr st
        \<and> substitute (labels st) (program st) = Inr [0x7C01, 0x0030] \<longrightarrow> codegen parsed = Inr bs"
    by blast
  from bs(2) have v: "bs = [0x7C, 0x01, 0x00, 0x30]" by simp
  from bs(3) g u have "codegen ?parsed = Inr bs" by blast
  with bs(1) v show ?thesis by simp
qed

subsection \<open>Indirect operands and their registers\<close>

lemma generate_fails:
  "ln \<in> set parsed \<Longrightarrow> (\<And>st. \<exists>e. codegen_line ln st = Inl e) \<Longrightarrow> \<exists>e. generate parsed st = Inl e"
proof (induction parsed arbitrary: st)
  case Nil
  then show ?case by simp
next
  case (Cons l ls)
  show ?case
  proof (cases "codegen_line l st")
    case (Inl e)
    then show ?thesis by simp
  next
    case (Inr st')
    with Cons.prems(2) [of st] have "ln \<noteq> l" by auto
    with Cons.prems(1) have "ln \<in> set ls" by simp
    from Cons.IH [OF this Cons.prems(2), of st'] Inr show ?thesis by simp
  qed
qed

lemma codegen_fails:
  "ln \<in> set parsed \<Longrightarrow> (\<And>st. \<exists>e. codegen_line ln st = Inl e) \<Longrightarrow> \<exists>e. codegen parsed = Inl e"
  using generate_fails [of ln parsed initial] by (auto simp add: codegen_def)

lemma not_named:
  "r \<in> {''PC'', ''SP''} \<Longrightarrow>
   process_operand (Some (Indirect (Indirect_basic (Register r)))) = Inl AssertionError
   \<and> process_operand (Some (Indirect (Indirect_expr l r))) = Inl AssertionError"
  by auto

lemma first_fails:
  assumes "process_operand (first s) = Inl AssertionError" "instruction s \<noteq> ''DAT''"
  shows "\<exists>e. codegen_line \<lparr>label = l, statement = Some s\<rparr> st = Inl e"
  using assms by (simp add: line_defs split: option.splits)

lemma second_fails:
  assumes "process_operand (second s) = Inl AssertionError" "instruction s \<noteq> ''DAT''"
     "instruction s \<noteq> ''JSR''"
  shows "\<exists>e. codegen_line \<lparr>label = l, statement = Some s\<rparr> st = Inl e"
  using assms by (simp add: line_defs split: option.splits sum.splits prod.splits)

text \<open>
  Claim C7, as amended. An indirect register operand \<^verbatim>\<open>[r]\<close> and an indirect offset
  operand \<^verbatim>\<open>[l + r]\<close> whose register \<open>r\<close> is \<^verbatim>\<open>PC\<close> or \<^verbatim>\<open>SP\<close> are never given an
  encoding: the classifier stops with the failed assertion. Assembly fails, with no
  bytes returned, for every source in which an instruction has such an operand as its
  first operand, or as its second operand when the mnemonic is not \<^verbatim>\<open>JSR\<close>. For the
  eight registers \<^verbatim>\<open>A B C X Y Z I J\<close>, of index \<open>c\<close> in \<open>0..7\<close>, the encodings are
  \<open>0x08 + c\<close> with no extra word and \<^verbatim>\<open>0x10 | c\<close> with the literal as extra word.
\<close>

theorem indirect_register_restriction:
  "(r \<in> {''PC'', ''SP''} \<longrightarrow>
      process_operand (Some (Indirect (Indirect_basic (Register r)))) = Inl AssertionError
    \<and> process_operand (Some (Indirect (Indirect_expr l r))) = Inl AssertionError
    \<and> (\<forall>parsed lab s. \<lparr>label = lab, statement = Some s\<rparr> \<in> set parsed
          \<and> instruction s \<noteq> ''DAT''
          \<and> (first s \<in> {Some (Indirect (Indirect_basic (Register r))), Some (Indirect (Indirect_expr l r))}
             \<or> instruction s \<noteq> ''JSR''
               \<and> second s \<in> {Some (Indirect (Indirect_basic (Register r))), Some (Indirect (Indirect_expr l r))})
          \<longrightarrow> (\<exists>e. codegen parsed = Inl e)))
   \<and> (q \<in> {''A'', ''B'', ''C'', ''X'', ''Y'', ''Z'', ''I'', ''J''} \<longrightarrow>
      (\<exists>c. IDENTIFIERS q = Some c \<and> 0 \<le> c \<and> c \<le> 7
         \<and> process_operand (Some (Indirect (Indirect_basic (Register q)))) = Inr (0x08 + c, None)
         \<and> process_operand (Some (Indirect (Indirect_expr l q))) = Inr (0x10 OR c, Some (lit_word l))))"
proof -
  have 1: "\<exists>e. codegen parsed = Inl e"
    if r: "r \<in> {''PC'', ''SP''}" and m: "\<lparr>label = lab, statement = Some s\<rparr> \<in> set parsed"
      and d: "instruction s \<noteq> ''DAT''"
      and o: "first s \<in> {Some (Indirect (Indirect_basic (Register r))), Some (Indirect (Indirect_expr l r))}
             \<or> instruction s \<noteq> ''JSR''
               \<and> second s \<in> {Some (Indirect (Indirect_basic (Register r))), Some (Indirect (Indirect_expr l r))}"
    for parsed lab s
  proof -
    from o have "\<exists>e. codegen_line \<lparr>label = lab, statement = Some s\<rparr> st = Inl e" for st
    proof
      assume "first s \<in> {Some (Indirect (Indirect_basic (Register r))), Some (Indirect (Indirect_expr l r))}"
      with not_named [OF r, of l] have "process_operand (first s) = Inl AssertionError" by auto
      from first_fails [OF this d] show ?thesis .
    next
      assume a: "instruction s \<noteq> ''JSR''
               \<and> second s \<in> {Some (Indirect (Indirect_basic (Register r))), Some (Indirect (Indirect_expr l r))}"
      with not_named [OF r, of l] have "process_operand (second s) = Inl AssertionError" by auto
      from second_fails [OF this d] a show ?thesis by blast
    qed
    from codegen_fails [OF m this] show ?thesis .
  qed
  have 2: "\<exists>c. IDENTIFIERS q = Some c \<and> 0 \<le> c \<and> c \<le> 7
         \<and> process_operand (Some (Indirect (Indirect_basic (Register q)))) = Inr (0x08 + c, None)
         \<and> process_operand (Some (Indirect (Indirect_expr l q))) = Inr (0x10 OR c, Some (lit_word l))"
    if "q \<in> {''A'', ''B'', ''C'', ''X'', ''Y'', ''Z'', ''I'', ''J''}"
    using that by (auto simp add: IDENTIFIERS_def)
  from 1 2 not_named [of r l] show ?thesis by blast
qed

theorem indirect_register_restriction_witness:
  "process_operand (Some (Indirect (Indirect_basic (Register ''PC'')))) = Inl AssertionError
   \<and> process_operand (Some (Indirect (Indirect_expr (Numeric 2) ''PC''))) = Inl AssertionError
   \<and> (\<exists>e. codegen [\<lparr>label = [], statement = Some (instr ''SET''
            (Basic (Register ''A'')) (Some (Indirect (Indirect_basic (Register ''PC'')))))\<rparr>] = Inl e)
   \<and> process_operand (Some (Indirect (Indirect_basic (Register ''J'')))) = Inr (0x0F, None)
   \<and> process_operand (Some (Indirect (Indirect_expr (Numeric 2) ''J''))) = Inr (0x17, Some (Number 2))"
proof -
  let ?s = "instr ''SET'' (Basic (Register ''A'')) (Some (Indirect (Indirect_basic (Register ''PC''))))"
  let ?parsed = "[\<lparr>label = [], statement = Some ?s\<rparr>]"
  note t = indirect_register_restriction [of "''PC''" "Numeric 2" "''J''"]
  have r: "''PC'' \<in> {''PC'', ''SP''}" and q: "''J'' \<in> {''A'', ''B'', ''C'', ''X'', ''Y'', ''Z'', ''I'', ''J''}"
    by simp_all
  have m: "\<lparr>label = [], statement = Some ?s\<rparr> \<in> set ?parsed \<and> instruction ?s \<noteq> ''DAT''
     \<and> (first ?s \<in> {Some (Indirect (Indirect_basic (Register ''PC''))),
                     Some (Indirect (Indirect_expr (Numeric 2) ''PC''))}
        \<or> instruction ?s \<noteq> ''JSR''
          \<and> second ?s \<in> {Some (Indirect (Indirect_basic (Register ''PC''))),
                     Some (Indirect (Indirect_expr (Numeric 2) ''PC''))})"
    by (simp add: instr_def)
  from t r m have 1: "\<exists>e. codegen ?parsed = Inl e" by blast
  from t r have 2: "process_operand (Some (Indirect (Indirect_basic (Register ''PC'')))) = Inl AssertionError"
    "process_operand (Some (Indirect (Indirect_expr (Numeric 2) ''PC''))) = Inl AssertionError"
    by blast+
  from t q obtain c where c: "IDENTIFIERS ''J'' = Some c"
    "process_operand (Some (Indirect (Indirect_basic (Register ''J'')))) = Inr (0x08 + c, None)"
    "process_operand (Some (Indirect (Indirect_expr (Numeric 2) ''J''))) = Inr (0x10 OR c, Some (lit_word (Numeric 2)))"
    by blast
  from c(1) have "c = 7" by (simp add: IDENTIFIERS_def)
  with c(2,3) 1 2 show ?thesis by simp
qed

text \<open>
  Without the restriction on the position the statement fails. The grammar accepts a
  second operand after any mnemonic, and the \<^verbatim>\<open>JSR\<close> branch of \<^verbatim>\<open>codegen\<close> classifies
  \<^verbatim>\<open>s.first\<close> only. The sources \<^verbatim>\<open>SET A, 1\<close> / \<^verbatim>\<open>JSR B, [PC]\<close> and \<^verbatim>\<open>SET A, 1\<close> /
  \<^verbatim>\<open>JSR B, [2 + SP]\<close> hold such an operand and still assemble, to the words \<open>0x8401\<close>
  and \<open>0x0410\<close>.
\<close>

theorem jsr_second_operand_counterexample:
  "second (instr ''JSR'' (Basic (Register ''B''))
       (Some (Indirect (Indirect_basic (Register ''PC'')))))
     = Some (Indirect (Indirect_basic (Register ''PC'')))
   \<and> codegen
        [\<lparr>label = [], statement = Some (instr ''SET''
           (Basic (Register ''A'')) (Some (Basic (Literal (Numeric 1)))))\<rparr>,
         \<lparr>label = [], statement = Some (instr ''JSR''
           (Basic (Register ''B'')) (Some (Indirect (Indirect_basic (Register ''PC'')))))\<rparr>]
       = Inr [0x84, 0x01, 0x04, 0x10]
   \<and> codegen
        [\<lparr>label = [], statement = Some (instr ''SET''
           (Basic (Register ''A'')) (Some (Basic (Literal (Numeric 1)))))\<rparr>,
         \<lparr>label = [], statement = Some (instr ''JSR''
           (Basic (Register ''B'')) (Some (Indirect (Indirect_expr (Numeric 2) ''SP''))))\<rparr>]
       = Inr [0x84, 0x01, 0x04, 0x10]"
  by (simp add: codegen_def line_defs table_defs instr_def initial_def instruction_word_sum
      pack_H_def)

subsection \<open>Undefined labels\<close>

lemma substitute_undefined:
  "Symbol c \<in> set cs \<Longrightarrow> lab c = None \<Longrightarrow>
   \<exists>c'. substitute lab cs = Inl (KeyError c') \<and> Symbol c' \<in> set cs \<and> lab c' = None"
proof (induction lab cs rule: substitute.induct)
  case (1 lab)
  then show ?case by simp
next
  case (2 lab n cs)
  then show ?case by auto
next
  case (3 lab d cs)
  show ?case
  proof (cases "lab d")
    case None
    then show ?thesis by auto
  next
    case (Some v)
    with "3.prems" have "Symbol c \<in> set cs" by auto
    from "3.IH" [OF Some this "3.prems"(2)] Some show ?thesis by auto
  qed
qed

text \<open>
  Claim C6. When the generation loop has run to its end and the generated program holds
  a symbolic word whose name is not a key of the label table, the substitution loop
  stops with \<^verbatim>\<open>KeyError\<close> at the first such word, so \<^verbatim>\<open>codegen\<close> fails after
  generation, never reaches serialisation and returns no bytes.
\<close>

theorem undefined_label_fails:
  assumes "generate parsed initial = Inr st"
    and "Symbol c \<in> set (program st)"
    and "labels st c = None"
  shows "\<exists>c'. substitute (labels st) (program st) = Inl (KeyError c')
           \<and> Symbol c' \<in> set (program st) \<and> labels st c' = None
           \<and> codegen parsed = Inl (KeyError c')"
proof -
  from substitute_undefined [of c "program st" "labels st", OF assms(2,3)] obtain c'
    where "substitute (labels st) (program st) = Inl (KeyError c')"
      "Symbol c' \<in> set (program st)" "labels st c' = None" by blast
  with assms(1) show ?thesis by (auto simp add: codegen_def)
qed

theorem undefined_label_fails_witness:
  "generate [\<lparr>label = ''start'', statement = Some (instr ''SET''
        (Basic (Register ''PC'')) (Some (Basic (Literal (Identifier ''loop'')))))\<rparr>] initial
     = Inr \<lparr>labels = [''start'' \<mapsto> 0], program = [Number 0x7DC1, Symbol ''loop''], var_x = Some None\<rparr>
   \<and> codegen [\<lparr>label = ''start'', statement = Some (instr ''SET''
        (Basic (Register ''PC'')) (Some (Basic (Literal (Identifier ''loop'')))))\<rparr>]
     = Inl (KeyError ''loop'')"
proof -
  let ?parsed = "[\<lparr>label = ''start'', statement = Some (instr ''SET''
        (Basic (Register ''PC'')) (Some (Basic (Literal (Identifier ''loop'')))))\<rparr>]"
  let ?st = "\<lparr>labels = [''start'' \<mapsto> 0], program = [Number 0x7DC1, Symbol ''loop''], var_x = Some None\<rparr>"
  have g: "generate ?parsed initial = Inr ?st"
    by (simp add: line_defs table_defs instr_def initial_def instruction_word_sum)
  have m: "Symbol ''loop'' \<in> set (program ?st)" by simp
  have u: "labels ?st ''loop'' = None" by simp
  from undefined_label_fails [OF g m u] obtain c' where c: "substitute (labels ?st) (program ?st) = Inl (KeyError c')"
    "codegen ?parsed = Inl (KeyError c')" by blast
  from c(1) have "c' = ''loop''" by simp
  with c(2) g show ?thesis by simp
qed

subsection \<open>The data directive\<close>

lemma length_make_words: "length (make_words ds) = (length ds + 1) div 2"
  by (induction ds rule: make_words.induct) simp_all

lemma make_words_pair:
  "2 * i + 1 < length ds \<Longrightarrow> make_words ds ! i = push_bit 8 (ds ! (2 * i)) OR ds ! (2 * i + 1)"
proof (induction ds arbitrary: i rule: make_words.induct)
  case (3 a b rest)
  show ?case
  proof (cases i)
    case 0
    then show ?thesis by simp
  next
    case (Suc j)
    with "3.prems" have "2 * j + 1 < length rest" by simp
    from "3.IH" [OF this] Suc show ?thesis by simp
  qed
qed simp_all

lemma make_words_odd:
  "odd (length ds) \<Longrightarrow> make_words ds ! (length ds div 2) = push_bit 8 (last ds)"
proof (induction ds rule: make_words.induct)
  case (3 a b rest)
  then have "rest \<noteq> []" by auto
  with 3 show ?case by simp
qed simp_all

lemma parse_data_concat: "parse_data ts = concat (map datum_words ts)"
  by (induction ts) simp_all

lemma low_byte_zero: "push_bit 8 (a::int) AND 0xFF = 0"
  using take_bit_eq_mask [of 8 "push_bit 8 a"]
  by (simp add: mask_eq_exp_minus_1 take_bit_eq_mod push_bit_eq_mult)

text \<open>
  Claim C5. A \<^verbatim>\<open>DAT\<close> statement appends the words of its data, taken left to right,
  as numbers only, never as symbolic words. A quoted string of \<open>n\<close> characters gives
  \<open>(n + 1) div 2\<close> words, word \<open>i\<close> being \<^verbatim>\<open>(c[2i] << 8) | c[2i+1]\<close>; when \<open>n\<close> is odd
  the last word is the last character shifted left by 8, its low byte zero. The string
  \<^verbatim>\<open>"HI"\<close> gives the single word \<open>0x4849\<close>, and a bare numeric literal gives exactly one
  word, its value.
\<close>

theorem dat_expansion:
  "(\<exists>st'. codegen_line \<lparr>label = l, statement = Some (dat ts)\<rparr> st = Inr st'
        \<and> program st' = program st @ map Number (parse_data ts))
   \<and> parse_data ts = concat (map datum_words ts)
   \<and> datum_words (Numeric_literal n) = [int n]
   \<and> length (datum_words (Quoted_string cs)) = (length cs + 1) div 2
   \<and> (\<forall>i. 2 * i + 1 < length cs \<longrightarrow>
         datum_words (Quoted_string cs) ! i = push_bit 8 (int (cs ! (2 * i))) OR int (cs ! (2 * i + 1)))
   \<and> (odd (length cs) \<longrightarrow>
         datum_words (Quoted_string cs) ! (length cs div 2) = push_bit 8 (int (last cs))
         \<and> datum_words (Quoted_string cs) ! (length cs div 2) AND 0xFF = 0)
   \<and> datum_words (Quoted_string (map of_char ''HI'')) = [0x4849]"
proof -
  have 1: "\<exists>st'. codegen_line \<lparr>label = l, statement = Some (dat ts)\<rparr> st = Inr st'
        \<and> program st' = program st @ map Number (parse_data ts)"
    by (simp add: line_defs dat_def)
  have 2: "datum_words (Quoted_string cs) ! i = push_bit 8 (int (cs ! (2 * i))) OR int (cs ! (2 * i + 1))"
    if "2 * i + 1 < length cs" for i
    using that make_words_pair [of i "map int cs"] by (simp add: wordize_string_def)
  have 3: "datum_words (Quoted_string cs) ! (length cs div 2) = push_bit 8 (int (last cs))"
    if "odd (length cs)"
  proof -
    from that have "cs \<noteq> []" by auto
    with that make_words_odd [of "map int cs"] show ?thesis
      by (simp add: wordize_string_def last_map)
  qed
  have 4: "datum_words (Quoted_string (map of_char ''HI'')) = [0x4849]"
    by (simp add: wordize_string_def)
  have 5: "length (datum_words (Quoted_string cs)) = (length cs + 1) div 2"
    by (simp add: wordize_string_def length_make_words)
  from 1 2 3 4 5 show ?thesis
    by (simp add: parse_data_concat low_byte_zero)
qed

theorem dat_expansion_witness:
  "odd (length (map of_char ''HI!'' :: nat list))
   \<and> 2 * 0 + 1 < length (map of_char ''HI!'' :: nat list)
   \<and> datum_words (Quoted_string (map of_char ''HI!'')) = [0x4849, 0x2100]
   \<and> (\<exists>st'. codegen_line \<lparr>label = ''msg'', statement =
          Some (dat [Quoted_string (map of_char ''HI!''), Numeric_literal 7])\<rparr> initial = Inr st'
        \<and> program st' = [Number 0x4849, Number 0x2100, Number 7])"
  using dat_expansion [of "''msg''" "[Quoted_string (map of_char ''HI!''), Numeric_literal 7]" initial 7
      "map of_char ''HI!''"]
  by (simp add: initial_def wordize_string_def)

subsection \<open>Labels\<close>

lemma generate_append:
  "generate (xs @ ys) st = (case generate xs st of Inl e \<Rightarrow> Inl e | Inr s \<Rightarrow> generate ys s)"
  by (induction xs arbitrary: st) (simp_all split: sum.splits)

lemma codegen_statement_labels:
  "codegen_statement s st = Inr st' \<Longrightarrow> labels st' = labels st"
  by (auto simp add: codegen_statement_def emit_def split: if_splits sum.splits prod.splits option.splits)

lemma codegen_statement_program:
  "codegen_statement s st = Inr st' \<Longrightarrow> \<exists>new. program st' = program st @ new"
  by (auto simp add: codegen_statement_def emit_def split: if_splits sum.splits prod.splits option.splits)

lemma codegen_line_labels:
  "codegen_line ln st = Inr st' \<Longrightarrow> labels st' = labels (define_label (label ln) st)"
  by (auto simp add: codegen_line_def split: option.splits dest: codegen_statement_labels)

lemma program_define_label: "program (define_label l st) = program st"
  by (simp add: define_label_def)

lemma var_x_define_label: "var_x (define_label l st) = var_x st"
  by (simp add: define_label_def)

lemma codegen_line_program:
  "codegen_line ln st = Inr st' \<Longrightarrow> \<exists>new. program st' = program st @ new"
  by (auto simp add: codegen_line_def program_define_label split: option.splits
      dest: codegen_statement_program)

lemma codegen_line_label_bound:
  "codegen_line ln st = Inr st' \<Longrightarrow> label ln \<noteq> [] \<Longrightarrow>
   labels st' (label ln) = Some (int (length (program st)))"
  by (simp add: codegen_line_labels define_label_def)

lemma codegen_line_label_other:
  "codegen_line ln st = Inr st' \<Longrightarrow> label ln \<noteq> l \<Longrightarrow> labels st' l = labels st l"
  by (simp add: codegen_line_labels define_label_def)

lemma generate_label_unchanged:
  "generate post st = Inr st' \<Longrightarrow> \<forall>ln \<in> set post. label ln \<noteq> l \<Longrightarrow> labels st' l = labels st l"
proof (induction post arbitrary: st)
  case Nil
  then show ?case by simp
next
  case (Cons ln post)
  from Cons.prems(1) obtain s where s: "codegen_line ln st = Inr s" "generate post s = Inr st'"
    by (auto split: sum.splits)
  from Cons.IH [OF s(2)] Cons.prems(2) have "labels st' l = labels s l" by simp
  also from codegen_line_label_other [OF s(1)] Cons.prems(2) have "labels s l = labels st l" by simp
  finally show ?case .
qed

lemma generate_last_definition:
  assumes "generate (pre @ ln # post) st = Inr st'"
    and "label ln \<noteq> []" and "\<forall>ln' \<in> set post. label ln' \<noteq> label ln"
  shows "\<exists>st0 st1. generate pre st = Inr st0 \<and> codegen_line ln st0 = Inr st1
           \<and> generate post st1 = Inr st'
           \<and> labels st1 (label ln) = Some (int (length (program st0)))
           \<and> labels st' (label ln) = Some (int (length (program st0)))"
proof -
  from assms(1) obtain st0 st1 where s: "generate pre st = Inr st0" "codegen_line ln st0 = Inr st1"
      "generate post st1 = Inr st'"
    by (auto simp add: generate_append split: sum.splits)
  from codegen_line_label_bound [OF s(2) assms(2)]
  have b: "labels st1 (label ln) = Some (int (length (program st0)))" .
  from generate_label_unchanged [OF s(3) assms(3)] b
  have "labels st' (label ln) = Some (int (length (program st0)))" by simp
  with s b show ?thesis by blast
qed

lemma substitute_nth:
  "substitute lab cs = Inr ws \<Longrightarrow>
   length ws = length cs \<and>
   (\<forall>k < length cs. (\<forall>n. cs ! k = Number n \<longrightarrow> ws ! k = n)
       \<and> (\<forall>c. cs ! k = Symbol c \<longrightarrow> lab c = Some (ws ! k)))"
proof (induction lab cs arbitrary: ws rule: substitute.induct)
  case (1 lab)
  then show ?case by simp
next
  case (2 lab n cs)
  from "2.prems" obtain vs where vs: "substitute lab cs = Inr vs" "ws = n # vs"
    by (auto split: sum.splits)
  from "2.IH" [OF vs(1)] vs(2) show ?case
    by (auto simp add: nth_Cons split: nat.splits)
next
  case (3 lab c cs)
  from "3.prems" obtain v vs where vs: "lab c = Some v" "substitute lab cs = Inr vs" "ws = v # vs"
    by (auto split: sum.splits option.splits)
  from "3.IH" [OF vs(1,2)] vs(1,3) show ?case
    by (auto simp add: nth_Cons split: nat.splits)
qed

text \<open>
  Claim C4, as amended. Take a line that carries a label definition and whose name no
  later line defines again, in a source whose generation and substitution succeed. The
  line binds the label to the length of the program before the line's statement appends
  its words, and that is the label's address in the final table. The substitution keeps
  every number and replaces every symbolic word by the address of its name in the final
  table; so every reference to the label, whether it stands before the definition or
  after it, is replaced by that one address.
\<close>

theorem label_resolution:
  assumes "generate (pre @ ln # post) initial = Inr st"
    and "label ln \<noteq> []"
    and "\<forall>ln' \<in> set post. label ln' \<noteq> label ln"
    and "substitute (labels st) (program st) = Inr ws"
  shows "\<exists>st0 st1. generate pre initial = Inr st0 \<and> codegen_line ln st0 = Inr st1
           \<and> labels st1 (label ln) = Some (int (length (program st0)))
           \<and> (\<exists>new. program st1 = program st0 @ new)
           \<and> labels st (label ln) = Some (int (length (program st0)))
           \<and> length ws = length (program st)
           \<and> (\<forall>k < length (program st).
                 (\<forall>n. program st ! k = Number n \<longrightarrow> ws ! k = n)
               \<and> (\<forall>c. program st ! k = Symbol c \<longrightarrow> labels st c = Some (ws ! k))
               \<and> (program st ! k = Symbol (label ln) \<longrightarrow> ws ! k = int (length (program st0))))"
proof -
  from generate_last_definition [OF assms(1,2,3)] obtain st0 st1
    where s: "generate pre initial = Inr st0" "codegen_line ln st0 = Inr st1"
      "labels st1 (label ln) = Some (int (length (program st0)))"
      "labels st (label ln) = Some (int (length (program st0)))"
    by blast
  from codegen_line_program [OF s(2)] have p: "\<exists>new. program st1 = program st0 @ new" .
  from substitute_nth [OF assms(4)] have n: "length ws = length (program st)"
    "\<forall>k < length (program st). (\<forall>n. program st ! k = Number n \<longrightarrow> ws ! k = n)
       \<and> (\<forall>c. program st ! k = Symbol c \<longrightarrow> labels st c = Some (ws ! k))"
    by blast+
  have r: "ws ! k = int (length (program st0))"
    if "k < length (program st)" "program st ! k = Symbol (label ln)" for k
  proof -
    from n(2) that have "labels st (label ln) = Some (ws ! k)" by blast
    with s(4) show ?thesis by simp
  qed
  from s p n r show ?thesis by blast
qed

theorem label_resolution_witness:
  "generate [\<lparr>label = [], statement = Some (instr ''SET''
               (Basic (Register ''PC'')) (Some (Basic (Literal (Identifier ''loop'')))))\<rparr>,
             \<lparr>label = ''loop'', statement = Some (instr ''SET''
               (Basic (Register ''A'')) (Some (Basic (Literal (Numeric 1)))))\<rparr>,
             \<lparr>label = [], statement = Some (instr ''SET''
               (Basic (Register ''PC'')) (Some (Basic (Literal (Identifier ''loop'')))))\<rparr>] initial
     = Inr \<lparr>labels = [''loop'' \<mapsto> 2],
            program = [Number 0x7DC1, Symbol ''loop'', Number 0x8401, Number 0x7DC1, Symbol ''loop''],
            var_x = Some None\<rparr>
   \<and> substitute [''loop'' \<mapsto> 2]
         [Number 0x7DC1, Symbol ''loop'', Number 0x8401, Number 0x7DC1, Symbol ''loop'']
     = Inr [0x7DC1, 2, 0x8401, 0x7DC1, 2]
   \<and> [0x7DC1, 2, 0x8401, 0x7DC1, 2 :: int] ! 1 = 2
   \<and> [0x7DC1, 2, 0x8401, 0x7DC1, 2 :: int] ! 4 = 2"
proof -
  let ?ref = "\<lparr>label = [], statement = Some (instr ''SET''
               (Basic (Register ''PC'')) (Some (Basic (Literal (Identifier ''loop'')))))\<rparr>"
  let ?def = "\<lparr>label = ''loop'', statement = Some (instr ''SET''
               (Basic (Register ''A'')) (Some (Basic (Literal (Numeric 1)))))\<rparr>"
  let ?st = "\<lparr>labels = [''loop'' \<mapsto> 2],
            program = [Number 0x7DC1, Symbol ''loop'', Number 0x8401, Number 0x7DC1, Symbol ''loop''],
            var_x = Some None\<rparr>"
  let ?ws = "[0x7DC1, 2, 0x8401, 0x7DC1, 2 :: int]"
  have g: "generate ([?ref] @ ?def # [?ref]) initial = Inr ?st"
    by (simp add: line_defs table_defs instr_def initial_def instruction_word_sum)
  have n: "label ?def \<noteq> []" by simp
  have l: "\<forall>ln' \<in> set [?ref]. label ln' \<noteq> label ?def" by simp
  have u: "substitute (labels ?st) (program ?st) = Inr ?ws" by simp
  from label_resolution [OF g n l u] obtain st0 where st0: "generate [?ref] initial = Inr st0"
    "\<forall>k < length (program ?st). program ?st ! k = Symbol (label ?def)
        \<longrightarrow> ?ws ! k = int (length (program st0))"
    by blast
  have "1 < length (program ?st)" "program ?st ! 1 = Symbol (label ?def)" by simp_all
  with st0(2) have f: "?ws ! 1 = int (length (program st0))" by blast
  have "4 < length (program ?st)" "program ?st ! 4 = Symbol (label ?def)" by simp_all
  with st0(2) have b: "?ws ! 4 = int (length (program st0))" by blast
  from st0(1) have "length (program st0) = 2"
    by (auto simp add: line_defs table_defs instr_def initial_def)
  with f b have "?ws ! 1 = 2" "?ws ! 4 = 2" by simp_all
  with g u show ?thesis by simp
qed

text \<open>
  Without the restriction to the last definition the statement fails. In the source
  \<^verbatim>\<open>:loop SET A, 1\<close> / \<^verbatim>\<open>:loop SET PC, loop\<close> the first line binds \<^verbatim>\<open>loop\<close> to 0, the
  length of the empty program, but the reference in the second line is replaced by 1,
  the address bound by the second line.
\<close>

theorem redefined_label_counterexample:
  "program initial = []
   \<and> labels (projr (codegen_line \<lparr>label = ''loop'', statement = Some (instr ''SET''
         (Basic (Register ''A'')) (Some (Basic (Literal (Numeric 1)))))\<rparr> initial)) ''loop'' = Some 0
   \<and> program (projr (generate
        [\<lparr>label = ''loop'', statement = Some (instr ''SET''
           (Basic (Register ''A'')) (Some (Basic (Literal (Numeric 1)))))\<rparr>,
         \<lparr>label = ''loop'', statement = Some (instr ''SET''
           (Basic (Register ''PC'')) (Some (Basic (Literal (Identifier ''loop'')))))\<rparr>] initial))
       = [Number 0x8401, Number 0x7DC1, Symbol ''loop'']
   \<and> codegen
        [\<lparr>label = ''loop'', statement = Some (instr ''SET''
           (Basic (Register ''A'')) (Some (Basic (Literal (Numeric 1)))))\<rparr>,
         \<lparr>label = ''loop'', statement = Some (instr ''SET''
           (Basic (Register ''PC'')) (Some (Basic (Literal (Identifier ''loop'')))))\<rparr>]
       = Inr [0x84, 0x01, 0x7D, 0xC1, 0x00, 0x01]"
  by (simp add: codegen_def line_defs table_defs instr_def initial_def instruction_word_sum pack_H_def)

subsection \<open>A label defined twice\<close>

lemma codegen_statement_cong:
  assumes "program st2 = program st1" "var_x st2 = var_x st1"
  shows "codegen_statement s st2 = map_sum id (\<lambda>r. r\<lparr>labels := labels st2\<rparr>) (codegen_statement s st1)"
proof -
  from assms have e: "st2 = st1\<lparr>labels := labels st2\<rparr>" by simp
  show ?thesis
    by (subst e)
      (simp add: codegen_statement_def emit_def split: sum.splits prod.splits option.splits)
qed

lemma codegen_line_sim:
  assumes "program s2 = program s1" "var_x s2 = var_x s1"
    and "\<forall>k. k \<noteq> l \<longrightarrow> labels s2 k = labels s1 k"
  shows "case codegen_line ln s1 of
           Inl e \<Rightarrow> codegen_line ln s2 = Inl e
         | Inr r1 \<Rightarrow> \<exists>r2. codegen_line ln s2 = Inr r2 \<and> program r2 = program r1
               \<and> var_x r2 = var_x r1 \<and> (\<forall>k. k \<noteq> l \<longrightarrow> labels r2 k = labels r1 k)
               \<and> (label ln = l \<and> l \<noteq> [] \<longrightarrow> r2 = r1)"
proof -
  let ?d1 = "define_label (label ln) s1" and ?d2 = "define_label (label ln) s2"
  have p: "program ?d2 = program ?d1" and v: "var_x ?d2 = var_x ?d1"
    using assms(1,2) by (simp_all add: define_label_def)
  have k: "\<forall>k. k \<noteq> l \<longrightarrow> labels ?d2 k = labels ?d1 k"
    using assms by (simp add: define_label_def)
  have q: "labels ?d2 = labels ?d1" if "label ln = l \<and> l \<noteq> []"
    using that assms by (auto simp add: define_label_def fun_eq_iff)
  have d: "?d2 = ?d1" if "label ln = l \<and> l \<noteq> []"
    using q [OF that] p v by (intro cg.equality) simp_all
  show ?thesis
  proof (cases "statement ln")
    case None
    with p v k d show ?thesis by (simp add: codegen_line_def)
  next
    case (Some s)
    note c = codegen_statement_cong [OF p v, of s]
    show ?thesis
    proof (cases "codegen_statement s ?d1")
      case (Inl e)
      with c Some show ?thesis by (simp add: codegen_line_def)
    next
      case (Inr r1)
      from codegen_statement_labels [OF Inr] have l1: "labels r1 = labels ?d1" .
      have "r1\<lparr>labels := labels ?d2\<rparr> = r1" if "label ln = l \<and> l \<noteq> []"
        using q [OF that] l1 by simp
      with c Inr Some k l1 show ?thesis by (simp add: codegen_line_def)
    qed
  qed
qed

lemma codegen_line_unlabel:
  "case codegen_line ln st of
     Inl e \<Rightarrow> codegen_line (ln\<lparr>label := []\<rparr>) st = Inl e
   | Inr r1 \<Rightarrow> \<exists>r2. codegen_line (ln\<lparr>label := []\<rparr>) st = Inr r2 \<and> program r2 = program r1
         \<and> var_x r2 = var_x r1 \<and> (\<forall>k. k \<noteq> label ln \<longrightarrow> labels r2 k = labels r1 k)"
proof -
  let ?d = "define_label (label ln) st"
  have p: "program st = program ?d" and v: "var_x st = var_x ?d"
    by (simp_all add: define_label_def)
  have k: "\<forall>k. k \<noteq> label ln \<longrightarrow> labels st k = labels ?d k"
    by (simp add: define_label_def)
  show ?thesis
  proof (cases "statement ln")
    case None
    with p v k show ?thesis by (simp add: codegen_line_def define_label_def)
  next
    case (Some s)
    note c = codegen_statement_cong [OF p v, of s]
    show ?thesis
    proof (cases "codegen_statement s ?d")
      case (Inl e)
      with c Some show ?thesis by (simp add: codegen_line_def define_label_def)
    next
      case (Inr r1)
      from codegen_statement_labels [OF Inr] have "labels r1 = labels ?d" .
      with c Inr Some k show ?thesis by (simp add: codegen_line_def define_label_def)
    qed
  qed
qed

lemma generate_sim_until:
  assumes "program s2 = program s1" "var_x s2 = var_x s1"
    and "\<forall>k. k \<noteq> l \<longrightarrow> labels s2 k = labels s1 k"
    and "label ln2 = l" "l \<noteq> []"
  shows "generate (mid @ ln2 # post) s2 = generate (mid @ ln2 # post) s1"
  using assms(1,2,3)
proof (induction mid arbitrary: s1 s2)
  case Nil
  from codegen_line_sim [OF Nil, of ln2] assms(4,5) show ?case
    by (auto split: sum.splits)
next
  case (Cons m mid)
  show ?case
  proof (cases "codegen_line m s1")
    case (Inl e)
    with codegen_line_sim [OF Cons.prems, of m] show ?thesis by simp
  next
    case (Inr r1)
    with codegen_line_sim [OF Cons.prems, of m] obtain r2 where r2: "codegen_line m s2 = Inr r2"
      "program r2 = program r1" "var_x r2 = var_x r1" "\<forall>k. k \<noteq> l \<longrightarrow> labels r2 k = labels r1 k"
      by auto
    from Cons.IH [OF r2(2,3,4)] Inr r2(1) show ?thesis by simp
  qed
qed

lemma generate_erase_earlier:
  assumes "label ln2 = label ln" "label ln \<noteq> []"
  shows "generate (pre @ ln\<lparr>label := []\<rparr> # mid @ ln2 # post) st
       = generate (pre @ ln # mid @ ln2 # post) st"
proof (cases "generate pre st")
  case (Inl e)
  then show ?thesis by (simp add: generate_append)
next
  case (Inr st0)
  show ?thesis
  proof (cases "codegen_line ln st0")
    case (Inl e)
    with codegen_line_unlabel [of ln st0] Inr show ?thesis by (simp add: generate_append)
  next
    case r1: (Inr r1)
    with codegen_line_unlabel [of ln st0] obtain r2
      where r2: "codegen_line (ln\<lparr>label := []\<rparr>) st0 = Inr r2" "program r2 = program r1"
        "var_x r2 = var_x r1" "\<forall>k. k \<noteq> label ln \<longrightarrow> labels r2 k = labels r1 k"
      by auto
    from generate_sim_until [OF r2(2,3,4) assms] Inr r1 r2(1) show ?thesis
      by (simp add: generate_append)
  qed
qed

text \<open>
  Claim C10. When a label is defined on a line and again on a later line, the last one
  that defines it, the assembler treats the source exactly as the source without the
  earlier definition: \<^verbatim>\<open>codegen\<close> gives the same result for both, so the second
  definition is no error. When generation and substitution succeed, the final table
  binds the name to the length of the program before the last defining line, and every
  symbolic word with that name, wherever it stands, is replaced by that address.
\<close>

theorem duplicate_label_last_wins:
  assumes "label ln \<noteq> []" and "label ln2 = label ln"
    and "\<forall>ln' \<in> set post. label ln' \<noteq> label ln"
  shows "codegen (pre @ ln # mid @ ln2 # post) = codegen (pre @ ln\<lparr>label := []\<rparr> # mid @ ln2 # post)
       \<and> (\<forall>st ws. generate (pre @ ln # mid @ ln2 # post) initial = Inr st
              \<and> substitute (labels st) (program st) = Inr ws \<longrightarrow>
            (\<exists>st2. generate (pre @ ln # mid) initial = Inr st2
               \<and> labels st (label ln) = Some (int (length (program st2)))
               \<and> (\<forall>k < length (program st). program st ! k = Symbol (label ln)
                     \<longrightarrow> ws ! k = int (length (program st2)))))"
proof -
  have 1: "codegen (pre @ ln # mid @ ln2 # post) = codegen (pre @ ln\<lparr>label := []\<rparr> # mid @ ln2 # post)"
    using generate_erase_earlier [OF assms(2,1), of pre mid post initial]
    by (simp add: codegen_def)
  have 2: "\<exists>st2. generate (pre @ ln # mid) initial = Inr st2
               \<and> labels st (label ln) = Some (int (length (program st2)))
               \<and> (\<forall>k < length (program st). program st ! k = Symbol (label ln)
                     \<longrightarrow> ws ! k = int (length (program st2)))"
    if g: "generate (pre @ ln # mid @ ln2 # post) initial = Inr st"
      and u: "substitute (labels st) (program st) = Inr ws" for st ws
  proof -
    from g have g': "generate ((pre @ ln # mid) @ ln2 # post) initial = Inr st" by simp
    from assms have n: "label ln2 \<noteq> []" and l: "\<forall>ln' \<in> set post. label ln' \<noteq> label ln2"
      by simp_all
    from generate_last_definition [OF g' n l] assms(2) obtain st2
      where s: "generate (pre @ ln # mid) initial = Inr st2"
        "labels st (label ln) = Some (int (length (program st2)))"
      by auto
    have "ws ! k = int (length (program st2))"
      if "k < length (program st)" "program st ! k = Symbol (label ln)" for k
    proof -
      from substitute_nth [OF u] that have "labels st (label ln) = Some (ws ! k)" by blast
      with s(2) show ?thesis by simp
    qed
    with s show ?thesis by blast
  qed
  from 1 2 show ?thesis by blast
qed

theorem duplicate_label_last_wins_witness:
  "codegen [\<lparr>label = [], statement = Some (instr ''SET''
               (Basic (Register ''PC'')) (Some (Basic (Literal (Identifier ''loop'')))))\<rparr>,
            \<lparr>label = ''loop'', statement = Some (instr ''SET''
               (Basic (Register ''A'')) (Some (Basic (Literal (Numeric 1)))))\<rparr>,
            \<lparr>label = ''loop'', statement = Some (instr ''SET''
               (Basic (Register ''A'')) (Some (Basic (Literal (Numeric 2)))))\<rparr>,
            \<lparr>label = [], statement = Some (instr ''SET''
               (Basic (Register ''PC'')) (Some (Basic (Literal (Identifier ''loop'')))))\<rparr>]
     = Inr [0x7D, 0xC1, 0x00, 0x03, 0x84, 0x01, 0x88, 0x01, 0x7D, 0xC1, 0x00, 0x03]
   \<and> codegen [\<lparr>label = [], statement = Some (instr ''SET''
               (Basic (Register ''PC'')) (Some (Basic (Literal (Identifier ''loop'')))))\<rparr>,
            \<lparr>label = [], statement = Some (instr ''SET''
               (Basic (Register ''A'')) (Some (Basic (Literal (Numeric 1)))))\<rparr>,
            \<lparr>label = ''loop'', statement = Some (instr ''SET''
               (Basic (Register ''A'')) (Some (Basic (Literal (Numeric 2)))))\<rparr>,
            \<lparr>label = [], statement = Some (instr ''SET''
               (Basic (Register ''PC'')) (Some (Basic (Literal (Identifier ''loop'')))))\<rparr>]
     = Inr [0x7D, 0xC1, 0x00, 0x03, 0x84, 0x01, 0x88, 0x01, 0x7D, 0xC1, 0x00, 0x03]
   \<and> substitute [''loop'' \<mapsto> 3]
         [Number 0x7DC1, Symbol ''loop'', Number 0x8401, Number 0x8801, Number 0x7DC1, Symbol ''loop'']
     = Inr [0x7DC1, 3, 0x8401, 0x8801, 0x7DC1, 3]
   \<and> [0x7DC1, 3, 0x8401, 0x8801, 0x7DC1, 3 :: int] ! 1 = 3
   \<and> [0x7DC1, 3, 0x8401, 0x8801, 0x7DC1, 3 :: int] ! 5 = 3"
proof -
  let ?ref = "\<lparr>label = [], statement = Some (instr ''SET''
               (Basic (Register ''PC'')) (Some (Basic (Literal (Identifier ''loop'')))))\<rparr>"
  let ?d1 = "\<lparr>label = ''loop'', statement = Some (instr ''SET''
               (Basic (Register ''A'')) (Some (Basic (Literal (Numeric 1)))))\<rparr>"
  let ?d2 = "\<lparr>label = ''loop'', statement = Some (instr ''SET''
               (Basic (Register ''A'')) (Some (Basic (Literal (Numeric 2)))))\<rparr>"
  let ?st = "\<lparr>labels = [''loop'' \<mapsto> 3],
      program = [Number 0x7DC1, Symbol ''loop'', Number 0x8401, Number 0x8801, Number 0x7DC1,
                 Symbol ''loop''],
      var_x = Some None\<rparr>"
  let ?ws = "[0x7DC1, 3, 0x8401, 0x8801, 0x7DC1, 3 :: int]"
  have n: "label ?d1 \<noteq> []" and e: "label ?d2 = label ?d1"
    and l: "\<forall>ln' \<in> set [?ref]. label ln' \<noteq> label ?d1"
    by simp_all
  note t = duplicate_label_last_wins [OF n e l, of "[?ref]" "[]"]
  have g: "generate ([?ref] @ ?d1 # [] @ ?d2 # [?ref]) initial = Inr ?st"
    by (simp add: line_defs table_defs instr_def initial_def instruction_word_sum)
  have u: "substitute (labels ?st) (program ?st) = Inr ?ws" by simp
  from t have "codegen ([?ref] @ ?d1 # [] @ ?d2 # [?ref])
      = codegen ([?ref] @ ?d1\<lparr>label := []\<rparr> # [] @ ?d2 # [?ref])"
    by blast
  moreover have "codegen ([?ref] @ ?d1 # [] @ ?d2 # [?ref])
     = Inr [0x7D, 0xC1, 0x00, 0x03, 0x84, 0x01, 0x88, 0x01, 0x7D, 0xC1, 0x00, 0x03]"
    by (simp add: codegen_def line_defs table_defs instr_def initial_def instruction_word_sum
        pack_H_def)
  ultimately have c: "codegen ([?ref] @ ?d1 # [] @ ?d2 # [?ref])
     = Inr [0x7D, 0xC1, 0x00, 0x03, 0x84, 0x01, 0x88, 0x01, 0x7D, 0xC1, 0x00, 0x03]"
    "codegen ([?ref] @ ?d1\<lparr>label := []\<rparr> # [] @ ?d2 # [?ref])
     = Inr [0x7D, 0xC1, 0x00, 0x03, 0x84, 0x01, 0x88, 0x01, 0x7D, 0xC1, 0x00, 0x03]"
    by simp_all
  from t g u obtain st2 where st2: "generate ([?ref] @ ?d1 # []) initial = Inr st2"
    "\<forall>k < length (program ?st). program ?st ! k = Symbol (label ?d1)
        \<longrightarrow> ?ws ! k = int (length (program st2))"
    by blast
  have "1 < length (program ?st)" "program ?st ! 1 = Symbol (label ?d1)" by simp_all
  with st2(2) have f: "?ws ! 1 = int (length (program st2))" by blast
  have "5 < length (program ?st)" "program ?st ! 5 = Symbol (label ?d1)" by simp_all
  with st2(2) have b: "?ws ! 5 = int (length (program st2))" by blast
  from st2(1) have "length (program st2) = 3"
    by (auto simp add: line_defs table_defs instr_def initial_def)
  with f b have "?ws ! 1 = 3" "?ws ! 5 = 3" by simp_all
  with c u show ?thesis by simp
qed

end
